theory Spec2Isabelle
  imports Main
begin

unbundle bit_operations_syntax

section \<open>The working-set trimming engine of RAM\_MemoryCleaner\<close>

text \<open>
  The repository holds two variants of one program, \<^verbatim>\<open>app_V1.py\<close> and \<^verbatim>\<open>app_V3.py\<close>.
  The part that does systems work is \<^verbatim>\<open>MemoryCleaner.run\<close>: it samples the available
  memory, collects garbage, trims its own working set, walks over the running processes,
  opens each one, trims it, closes the handle, samples again and emits the difference.

  Everything \<^verbatim>\<open>run\<close> does is a call into the host (psutil, the garbage collector,
  kernel32, psapi, the Qt signal). The embedding takes the host as a parameter: a record
  of functions over a world state \<open>'w\<close> that the calls thread through, so that an answer
  may depend on everything that happened before. Each call \<^verbatim>\<open>run\<close> makes is logged, with
  its arguments and its answer, in the order the source makes it.
\<close>

subsection \<open>Values\<close>

text \<open>
  \<^verbatim>\<open>OpenProcess.restype = wintypes.HANDLE\<close>: ctypes hands a \<^verbatim>\<open>HANDLE\<close> back as a Python
  \<^verbatim>\<open>int\<close>, or as \<^verbatim>\<open>None\<close>. The source starts each iteration with \<^verbatim>\<open>h = None\<close>.
\<close>

type_synonym HANDLE = "int option"

text \<open>
  \<^verbatim>\<open>if h:\<close> and \<^verbatim>\<open>if not h:\<close> test Python truthiness: \<^verbatim>\<open>None\<close> and \<^verbatim>\<open>0\<close> are false,
  every other integer is true.
\<close>

fun truthy :: "HANDLE \<Rightarrow> bool" where
  "truthy None = False"
| "truthy (Some v) = (v \<noteq> 0)"

text \<open>
  A call that the source puts under \<^verbatim>\<open>try: ... except Exception: pass\<close> either returns
  or raises an exception of class \<^verbatim>\<open>Exception\<close>.
\<close>

datatype 'a outcome = Returned 'a | Raised

text \<open>
  One element of \<^verbatim>\<open>psutil.process_iter(attrs=["pid", "name", "username"])\<close>: the dictionary
  \<^verbatim>\<open>p.info\<close>. psutil stores \<^verbatim>\<open>None\<close> for an attribute it may not read.
\<close>

record ProcessInfo =
  pid :: int
  name :: "string option"
  username :: "string option"

definition PROCESS_QUERY_INFORMATION :: int where
  "PROCESS_QUERY_INFORMATION = 0x0400"

definition PROCESS_SET_QUOTA :: int where
  "PROCESS_SET_QUOTA = 0x0100"

definition PROCESS_QUERY_LIMITED_INFORMATION :: int where
  "PROCESS_QUERY_LIMITED_INFORMATION = 0x1000"

subsection \<open>The host\<close>

text \<open>
  The calls of \<^verbatim>\<open>run\<close>. \<^verbatim>\<open>OpenProcess\<close> and \<^verbatim>\<open>EmptyWorkingSet\<close> are the two calls whose
  refusal the source handles (a false result is tested or ignored, an exception is
  swallowed by \<^verbatim>\<open>except Exception: pass\<close>), so they answer with an \<open>outcome\<close>.

  The other calls are calls that return. \<^verbatim>\<open>psutil.virtual_memory().available\<close>,
  \<^verbatim>\<open>psutil.process_iter\<close> (a finite sequence, listed when the loop starts) and
  \<^verbatim>\<open>CloseHandle\<close> (in the \<^verbatim>\<open>finally\<close> clause) stand outside every handler of the source,
  which has no branch for their failure. \<^verbatim>\<open>GetCurrentProcess()\<close> takes no argument and
  returns the pseudo-handle of the caller. \<^verbatim>\<open>gc.collect()\<close> stands outside every handler
  too; \<open>gc_collect\<close> is what a collection that returns does to the world, and a
  collection that raises is treated apart, after the two variants.

  \<^verbatim>\<open>EmptyWorkingSet\<close> returns a \<^verbatim>\<open>BOOL\<close>, which ctypes hands back as an \<^verbatim>\<open>int\<close>; the source
  ignores it.
\<close>

record 'w host =
  virtual_memory_available :: "'w \<Rightarrow> int \<times> 'w"
  gc_collect :: "'w \<Rightarrow> 'w"
  GetCurrentProcess :: "'w \<Rightarrow> HANDLE \<times> 'w"
  EmptyWorkingSet :: "HANDLE \<Rightarrow> 'w \<Rightarrow> int outcome \<times> 'w"
  process_iter :: "'w \<Rightarrow> ProcessInfo list \<times> 'w"
  OpenProcess :: "int \<Rightarrow> bool \<Rightarrow> int \<Rightarrow> 'w \<Rightarrow> HANDLE outcome \<times> 'w"
  CloseHandle :: "HANDLE \<Rightarrow> 'w \<Rightarrow> 'w"

text \<open>
  \<^verbatim>\<open>finished_with_freed = Signal(int)\<close> (line 40 of both files): the signal carries a C
  \<^verbatim>\<open>int\<close> of 32 bits. \<^verbatim>\<open>emit\<close> hands a Python integer over by its low 32 bits, read as a
  signed number, so that what arrives is the value emitted only between \<open>-2^31\<close> and
  \<open>2^31 - 1\<close>: 3000000000 arrives as -1294967296.
\<close>

definition Signal_int :: "int \<Rightarrow> int" where
  "Signal_int v = (v + 2147483648) mod 4294967296 - 2147483648"

text \<open>
  The log: one event per call, and one for the signal \<^verbatim>\<open>finished_with_freed\<close>, which holds
  the value that arrives.
\<close>

datatype event =
    Sampled int
  | Collected
  | Current HANDLE
  | Trimmed HANDLE "int outcome"
  | Enumerated "ProcessInfo list"
  | Opened int bool int "HANDLE outcome"
  | Closed HANDLE
  | Emitted int

subsection \<open>\<^verbatim>\<open>MemoryCleaner.run\<close> of \<^verbatim>\<open>app_V1.py\<close>\<close>

text \<open>
  Lines 60 to 70, the \<^verbatim>\<open>try\<close> block under its \<^verbatim>\<open>except Exception: pass\<close>. The result is
  the value of the variable \<^verbatim>\<open>h\<close> when the block is left, the calls made and the world.
  An assignment whose right-hand side raises leaves \<^verbatim>\<open>h\<close> as it was.
\<close>

definition trim_if_V1 :: "'w host \<Rightarrow> HANDLE \<Rightarrow> event list \<Rightarrow> 'w \<Rightarrow> HANDLE \<times> event list \<times> 'w" where
  "trim_if_V1 H h evs w =
     (if truthy h then
        (case EmptyWorkingSet H h w of (r, w') \<Rightarrow> (h, evs @ [Trimmed h r], w'))
      else (h, evs, w))"

definition try_V1 :: "'w host \<Rightarrow> int \<Rightarrow> 'w \<Rightarrow> HANDLE \<times> event list \<times> 'w" where
  "try_V1 H i w =
     (let a1 = PROCESS_QUERY_INFORMATION OR PROCESS_SET_QUOTA;
          a2 = PROCESS_QUERY_LIMITED_INFORMATION OR PROCESS_SET_QUOTA
      in case OpenProcess H a1 False i w of
           (Raised, w1) \<Rightarrow> (None, [Opened a1 False i Raised], w1)
         | (Returned h1, w1) \<Rightarrow>
             (if \<not> truthy h1 then
                (case OpenProcess H a2 False i w1 of
                   (Raised, w2) \<Rightarrow>
                     (h1, [Opened a1 False i (Returned h1), Opened a2 False i Raised], w2)
                 | (Returned h2, w2) \<Rightarrow>
                     trim_if_V1 H h2
                       [Opened a1 False i (Returned h1), Opened a2 False i (Returned h2)] w2)
              else trim_if_V1 H h1 [Opened a1 False i (Returned h1)] w1))"

text \<open>
  Lines 55 to 73, the body of the \<^verbatim>\<open>for\<close> loop: the test \<^verbatim>\<open>pid in (0, 4)\<close> with its
  \<^verbatim>\<open>continue\<close>, the \<^verbatim>\<open>try\<close> block, and the \<^verbatim>\<open>finally\<close> clause that closes a true \<^verbatim>\<open>h\<close>.
\<close>

definition body_V1 :: "'w host \<Rightarrow> ProcessInfo \<Rightarrow> 'w \<Rightarrow> event list \<times> 'w" where
  "body_V1 H p w =
     (if pid p = 0 \<or> pid p = 4 then ([], w)
      else case try_V1 H (pid p) w of
             (h, evs, w1) \<Rightarrow>
               if truthy h then (evs @ [Closed h], CloseHandle H h w1) else (evs, w1))"

fun loop_V1 :: "'w host \<Rightarrow> ProcessInfo list \<Rightarrow> 'w \<Rightarrow> event list \<times> 'w" where
  "loop_V1 H [] w = ([], w)"
| "loop_V1 H (p # ps) w =
     (case body_V1 H p w of
        (evs, w1) \<Rightarrow> (case loop_V1 H ps w1 of (evs', w2) \<Rightarrow> (evs @ evs', w2)))"

text \<open>
  Lines 42 to 80. The result is the log of the run and the world it leaves. The last line,
  \<^verbatim>\<open>self.finished_with_freed.emit(int(freed))\<close>, sends \<^verbatim>\<open>freed\<close> through the signal.
\<close>

definition run_V1 :: "'w host \<Rightarrow> 'w \<Rightarrow> event list \<times> 'w" where
  "run_V1 H w0 =
     (case virtual_memory_available H w0 of
        (before_bytes, w1) \<Rightarrow>
     (case GetCurrentProcess H (gc_collect H w1) of
        (cur, w2) \<Rightarrow>
     (case EmptyWorkingSet H cur w2 of
        (r, w3) \<Rightarrow>
     (case process_iter H w3 of
        (ps, w4) \<Rightarrow>
     (case loop_V1 H ps w4 of
        (evs, w5) \<Rightarrow>
     (case virtual_memory_available H w5 of
        (after_bytes, w6) \<Rightarrow>
     (let freed = after_bytes - before_bytes;
          freed = (if freed < 0 then 0 else freed)
      in ([Sampled before_bytes, Collected, Current cur, Trimmed cur r, Enumerated ps]
            @ evs @ [Sampled after_bytes, Emitted (Signal_int freed)], w6))))))))"

subsection \<open>\<^verbatim>\<open>MemoryCleaner.run\<close> of \<^verbatim>\<open>app_V3.py\<close>\<close>

text \<open>
  Lines 55 to 63, the \<^verbatim>\<open>try\<close> block under its \<^verbatim>\<open>except Exception: pass\<close>. The result is
  the value of the variable \<^verbatim>\<open>h\<close> when the block is left, the calls made and the world.
  An assignment whose right-hand side raises leaves \<^verbatim>\<open>h\<close> as it was.
\<close>

definition trim_if_V3 :: "'w host \<Rightarrow> HANDLE \<Rightarrow> event list \<Rightarrow> 'w \<Rightarrow> HANDLE \<times> event list \<times> 'w" where
  "trim_if_V3 H h evs w =
     (if truthy h then
        (case EmptyWorkingSet H h w of (r, w') \<Rightarrow> (h, evs @ [Trimmed h r], w'))
      else (h, evs, w))"

definition try_V3 :: "'w host \<Rightarrow> int \<Rightarrow> 'w \<Rightarrow> HANDLE \<times> event list \<times> 'w" where
  "try_V3 H i w =
     (let a1 = PROCESS_QUERY_INFORMATION OR PROCESS_SET_QUOTA;
          a2 = PROCESS_QUERY_LIMITED_INFORMATION OR PROCESS_SET_QUOTA
      in case OpenProcess H a1 False i w of
           (Raised, w1) \<Rightarrow> (None, [Opened a1 False i Raised], w1)
         | (Returned h1, w1) \<Rightarrow>
             (if \<not> truthy h1 then
                (case OpenProcess H a2 False i w1 of
                   (Raised, w2) \<Rightarrow>
                     (h1, [Opened a1 False i (Returned h1), Opened a2 False i Raised], w2)
                 | (Returned h2, w2) \<Rightarrow>
                     trim_if_V3 H h2
                       [Opened a1 False i (Returned h1), Opened a2 False i (Returned h2)] w2)
              else trim_if_V3 H h1 [Opened a1 False i (Returned h1)] w1))"

text \<open>
  Lines 52 to 66, the body of the \<^verbatim>\<open>for\<close> loop: the test \<^verbatim>\<open>pid in (0, 4)\<close> with its
  \<^verbatim>\<open>continue\<close>, the \<^verbatim>\<open>try\<close> block, and the \<^verbatim>\<open>finally\<close> clause that closes a true \<^verbatim>\<open>h\<close>.
\<close>

definition body_V3 :: "'w host \<Rightarrow> ProcessInfo \<Rightarrow> 'w \<Rightarrow> event list \<times> 'w" where
  "body_V3 H p w =
     (if pid p = 0 \<or> pid p = 4 then ([], w)
      else case try_V3 H (pid p) w of
             (h, evs, w1) \<Rightarrow>
               if truthy h then (evs @ [Closed h], CloseHandle H h w1) else (evs, w1))"

fun loop_V3 :: "'w host \<Rightarrow> ProcessInfo list \<Rightarrow> 'w \<Rightarrow> event list \<times> 'w" where
  "loop_V3 H [] w = ([], w)"
| "loop_V3 H (p # ps) w =
     (case body_V3 H p w of
        (evs, w1) \<Rightarrow> (case loop_V3 H ps w1 of (evs', w2) \<Rightarrow> (evs @ evs', w2)))"

text \<open>
  Lines 42 to 72. The result is the log of the run and the world it leaves. The last line,
  \<^verbatim>\<open>self.finished_with_freed.emit(int(freed))\<close>, sends \<^verbatim>\<open>freed\<close> through the signal.
\<close>

definition run_V3 :: "'w host \<Rightarrow> 'w \<Rightarrow> event list \<times> 'w" where
  "run_V3 H w0 =
     (case virtual_memory_available H w0 of
        (before_bytes, w1) \<Rightarrow>
     (case GetCurrentProcess H (gc_collect H w1) of
        (cur, w2) \<Rightarrow>
     (case EmptyWorkingSet H cur w2 of
        (r, w3) \<Rightarrow>
     (case process_iter H w3 of
        (ps, w4) \<Rightarrow>
     (case loop_V3 H ps w4 of
        (evs, w5) \<Rightarrow>
     (case virtual_memory_available H w5 of
        (after_bytes, w6) \<Rightarrow>
     (let freed = after_bytes - before_bytes;
          freed = (if freed < 0 then 0 else freed)
      in ([Sampled before_bytes, Collected, Current cur, Trimmed cur r, Enumerated ps]
            @ evs @ [Sampled after_bytes, Emitted (Signal_int freed)], w6))))))))"

subsection \<open>The two variants\<close>

datatype variant = V1 | V3

fun body :: "variant \<Rightarrow> 'w host \<Rightarrow> ProcessInfo \<Rightarrow> 'w \<Rightarrow> event list \<times> 'w" where
  "body V1 = body_V1"
| "body V3 = body_V3"

fun loop :: "variant \<Rightarrow> 'w host \<Rightarrow> ProcessInfo list \<Rightarrow> 'w \<Rightarrow> event list \<times> 'w" where
  "loop V1 = loop_V1"
| "loop V3 = loop_V3"

fun run :: "variant \<Rightarrow> 'w host \<Rightarrow> 'w \<Rightarrow> event list \<times> 'w" where
  "run V1 = run_V1"
| "run V3 = run_V3"

subsection \<open>A garbage collection that raises\<close>

text \<open>
  \<^verbatim>\<open>gc.collect()\<close> (line 47 of \<^verbatim>\<open>app_V1.py\<close>, line 45 of \<^verbatim>\<open>app_V3.py\<close>) stands before the
  first \<^verbatim>\<open>try\<close>, outside every handler. If it raises, the exception leaves \<^verbatim>\<open>run\<close>: the
  first sample has been taken, no other call is made and nothing is emitted. \<open>run_gc\<close> is
  the run for a given answer of the garbage collection.
\<close>

fun run_gc :: "variant \<Rightarrow> unit outcome \<Rightarrow> 'w host \<Rightarrow> 'w \<Rightarrow> event list \<times> 'w" where
  "run_gc v (Returned u) H w0 = run v H w0"
| "run_gc v Raised H w0 =
     (case virtual_memory_available H w0 of (before_bytes, w1) \<Rightarrow> ([Sampled before_bytes], w1))"

subsection \<open>Reading a log\<close>

text \<open>The values sampled, the values emitted, the handles trimmed and closed, in order.\<close>

fun samples :: "event list \<Rightarrow> int list" where
  "samples [] = []"
| "samples (Sampled v # es) = v # samples es"
| "samples (e # es) = samples es"

fun emissions :: "event list \<Rightarrow> int list" where
  "emissions [] = []"
| "emissions (Emitted v # es) = v # emissions es"
| "emissions (e # es) = emissions es"

fun trims :: "event list \<Rightarrow> HANDLE list" where
  "trims [] = []"
| "trims (Trimmed h r # es) = h # trims es"
| "trims (e # es) = trims es"

fun closes :: "event list \<Rightarrow> HANDLE list" where
  "closes [] = []"
| "closes (Closed h # es) = h # closes es"
| "closes (e # es) = closes es"

text \<open>The requests to open a process: access rights, process id and answer.\<close>

fun opens :: "event list \<Rightarrow> (int \<times> int \<times> HANDLE outcome) list" where
  "opens [] = []"
| "opens (Opened a b i r # es) = (a, i, r) # opens es"
| "opens (e # es) = opens es"


text \<open>The handles that \<^verbatim>\<open>OpenProcess\<close> gave out, in order.\<close>

fun acquisitions :: "event list \<Rightarrow> HANDLE list" where
  "acquisitions [] = []"
| "acquisitions (Opened a b i (Returned h) # es) =
     (if truthy h then h # acquisitions es else acquisitions es)"
| "acquisitions (e # es) = acquisitions es"



subsection \<open>Replaying a log on the host\<close>

text \<open>
  A log is replayed from a world by making each call it records, with the arguments it
  records, of the host, in order. The replay fails when the host answers otherwise than
  recorded; it gives the world that the calls leave. The signal is no call of the host.
\<close>

fun replay :: "'w host \<Rightarrow> 'w \<Rightarrow> event list \<Rightarrow> 'w option" where
  "replay H w [] = Some w"
| "replay H w (Sampled v # es) =
     (case virtual_memory_available H w of
        (v', w') \<Rightarrow> if v' = v then replay H w' es else None)"
| "replay H w (Collected # es) = replay H (gc_collect H w) es"
| "replay H w (Current h # es) =
     (case GetCurrentProcess H w of
        (h', w') \<Rightarrow> if h' = h then replay H w' es else None)"
| "replay H w (Trimmed h r # es) =
     (case EmptyWorkingSet H h w of
        (r', w') \<Rightarrow> if r' = r then replay H w' es else None)"
| "replay H w (Enumerated ps # es) =
     (case process_iter H w of
        (ps', w') \<Rightarrow> if ps' = ps then replay H w' es else None)"
| "replay H w (Opened a b i r # es) =
     (case OpenProcess H a b i w of
        (r', w') \<Rightarrow> if r' = r then replay H w' es else None)"
| "replay H w (Closed h # es) = replay H (CloseHandle H h w) es"
| "replay H w (Emitted v # es) = replay H w es"

subsection \<open>The logs of one iteration\<close>

text \<open>
  The five ways through the body of the loop for a process \<open>i\<close> that is not skipped: the
  first request raises; the first request gives a handle; the first request gives none and
  the second raises, gives none, or gives a handle.
\<close>

inductive iteration_log :: "int \<Rightarrow> event list \<Rightarrow> bool" for i :: int where
  first_raised: "iteration_log i [Opened 0x0500 False i Raised]"
| first_opened: "truthy h \<Longrightarrow>
    iteration_log i [Opened 0x0500 False i (Returned h), Trimmed h r, Closed h]"
| second_raised: "\<not> truthy h1 \<Longrightarrow>
    iteration_log i [Opened 0x0500 False i (Returned h1), Opened 0x1100 False i Raised]"
| both_refused: "\<not> truthy h1 \<Longrightarrow> \<not> truthy h2 \<Longrightarrow>
    iteration_log i [Opened 0x0500 False i (Returned h1), Opened 0x1100 False i (Returned h2)]"
| second_opened: "\<not> truthy h1 \<Longrightarrow> truthy h2 \<Longrightarrow>
    iteration_log i [Opened 0x0500 False i (Returned h1), Opened 0x1100 False i (Returned h2),
      Trimmed h2 r, Closed h2]"

subsection \<open>Handle discipline\<close>


text \<open>
  A log trims only what was just opened when every \<^verbatim>\<open>EmptyWorkingSet\<close> in it comes right
  after a request for a process other than 0 and 4 that returned the handle trimmed.
\<close>

definition trims_follow_opens :: "event list \<Rightarrow> bool" where
  "trims_follow_opens evs \<longleftrightarrow>
     (\<forall>xs h r ys. evs = xs @ Trimmed h r # ys \<longrightarrow>
        (\<exists>xs' a i. xs = xs' @ [Opened a False i (Returned h)] \<and> i \<noteq> 0 \<and> i \<noteq> 4))"

subsection \<open>A host for examples\<close>

text \<open>
  A host whose world is the list of the samples still to come. The processes listed and
  the answers of \<^verbatim>\<open>OpenProcess\<close> (by access rights and process id) and of
  \<^verbatim>\<open>EmptyWorkingSet\<close> (by handle) are given. \<^verbatim>\<open>GetCurrentProcess\<close> answers \<open>-1\<close>.
\<close>

definition scripted :: "ProcessInfo list \<Rightarrow> (int \<Rightarrow> int \<Rightarrow> HANDLE outcome) \<Rightarrow>
    (HANDLE \<Rightarrow> int outcome) \<Rightarrow> int list host" where
  "scripted ps opn trm =
     \<lparr> virtual_memory_available = (\<lambda>w. case w of [] \<Rightarrow> (0, []) | v # vs \<Rightarrow> (v, vs)),
       gc_collect = (\<lambda>w. w),
       GetCurrentProcess = (\<lambda>w. (Some (- 1), w)),
       EmptyWorkingSet = (\<lambda>h w. (trm h, w)),
       process_iter = (\<lambda>w. (ps, w)),
       OpenProcess = (\<lambda>a b i w. (opn a i, w)),
       CloseHandle = (\<lambda>h w. w) \<rparr>"

definition proc :: "int \<Rightarrow> ProcessInfo" where
  "proc i = \<lparr> pid = i, name = None, username = None \<rparr>"

text \<open>
  Seven processes. 0 and 4 would open; 100 opens at the first request and trims; 200 opens
  at the second request and its trim raises; 300 is refused twice; the first request for
  400 raises; the second request for 500 raises.
\<close>

definition demo_procs :: "ProcessInfo list" where
  "demo_procs = map proc [0, 4, 100, 200, 300, 400, 500]"

definition demo_open :: "int \<Rightarrow> int \<Rightarrow> HANDLE outcome" where
  "demo_open a i =
     (if i = 0 \<or> i = 4 \<or> i = 100 then Returned (Some (i + 8))
      else if i = 200 then (if a = 0x0500 then Returned None else Returned (Some 208))
      else if i = 300 then Returned None
      else if i = 400 then Raised
      else (if a = 0x0500 then Returned (Some 0) else Raised))"

definition demo_trim :: "HANDLE \<Rightarrow> int outcome" where
  "demo_trim h = (if h = Some 108 then Returned 1 else if h = Some 208 then Raised else Returned 0)"

definition refuse_all :: "int \<Rightarrow> int \<Rightarrow> HANDLE outcome" where
  "refuse_all a i = Returned None"

text \<open>
  A host whose world is the number of bytes available: a sample reads it, a collection
  frees one byte, every trim frees a thousand and every \<^verbatim>\<open>CloseHandle\<close> frees ten.
\<close>

definition metered :: "ProcessInfo list \<Rightarrow> (int \<Rightarrow> int \<Rightarrow> HANDLE outcome) \<Rightarrow> int host" where
  "metered ps opn =
     \<lparr> virtual_memory_available = (\<lambda>w. (w, w)),
       gc_collect = (\<lambda>w. w + 1),
       GetCurrentProcess = (\<lambda>w. (Some (- 1), w)),
       EmptyWorkingSet = (\<lambda>h w. (Returned 1, w + 1000)),
       process_iter = (\<lambda>w. (ps, w)),
       OpenProcess = (\<lambda>a b i w. (opn a i, w)),
       CloseHandle = (\<lambda>h w. w + 10) \<rparr>"

section \<open>Properties\<close>

subsection \<open>Access rights and the two variants\<close>

lemmas access_defs = PROCESS_QUERY_INFORMATION_def PROCESS_SET_QUOTA_def PROCESS_QUERY_LIMITED_INFORMATION_def

lemma full_access: "PROCESS_QUERY_INFORMATION OR PROCESS_SET_QUOTA = 0x0500"
  by (simp add: access_defs)

lemma limited_access: "PROCESS_QUERY_LIMITED_INFORMATION OR PROCESS_SET_QUOTA = 0x1100"
  by (simp add: access_defs)

lemma trim_if_V1_V3: "trim_if_V1 = trim_if_V3"
  by (simp add: fun_eq_iff trim_if_V1_def trim_if_V3_def)

lemma try_V1_V3: "try_V1 = try_V3"
  unfolding fun_eq_iff try_V1_def try_V3_def trim_if_V1_V3 by simp

lemma body_V1_V3: "body_V1 = body_V3"
  unfolding fun_eq_iff body_V1_def body_V3_def try_V1_V3 by simp

lemma loop_V1_V3: "loop_V1 H ps w = loop_V3 H ps w"
  by (induction ps arbitrary: w) (simp_all add: body_V1_V3)

lemma body_variant: "body v = body_V3"
  by (cases v) (simp_all add: body_V1_V3)

lemma loop_variant: "loop v H ps w = loop_V3 H ps w"
  by (cases v) (simp_all add: loop_V1_V3)

lemma run_variant: "run v H w = run_V3 H w"
  by (cases v) (simp_all add: run_V1_def run_V3_def loop_V1_V3)

subsection \<open>The log of one iteration, of the loop and of a run\<close>

lemma body_V3_log:
  assumes "pid p \<noteq> 0" "pid p \<noteq> 4"
  shows "iteration_log (pid p) (fst (body_V3 H p w))"
  using assms
  by (auto simp: body_V3_def try_V3_def trim_if_V3_def full_access limited_access Let_def
      split: prod.splits outcome.splits intro: iteration_log.intros)

lemma body_V3_skip: "pid p = 0 \<or> pid p = 4 \<Longrightarrow> body_V3 H p w = ([], w)"
  by (simp add: body_V3_def)

lemma loop_V3_Cons:
  "fst (loop_V3 H (p # ps) w) = fst (body_V3 H p w) @ fst (loop_V3 H ps (snd (body_V3 H p w)))"
  by (simp split: prod.splits)

lemma samples_append: "samples (xs @ ys) = samples xs @ samples ys"
  by (induction xs rule: samples.induct) simp_all

lemma emissions_append: "emissions (xs @ ys) = emissions xs @ emissions ys"
  by (induction xs rule: emissions.induct) simp_all

lemma trims_append: "trims (xs @ ys) = trims xs @ trims ys"
  by (induction xs rule: trims.induct) simp_all

lemma closes_append: "closes (xs @ ys) = closes xs @ closes ys"
  by (induction xs rule: closes.induct) simp_all

lemma opens_append: "opens (xs @ ys) = opens xs @ opens ys"
  by (induction xs rule: opens.induct) simp_all

lemma acquisitions_append: "acquisitions (xs @ ys) = acquisitions xs @ acquisitions ys"
  by (induction xs rule: acquisitions.induct) simp_all

lemma iteration_log_quiet:
  "iteration_log i evs \<Longrightarrow> samples evs = [] \<and> emissions evs = []"
  by (induction rule: iteration_log.induct) simp_all

lemma body_V3_quiet: "samples (fst (body_V3 H p w)) = [] \<and> emissions (fst (body_V3 H p w)) = []"
proof (cases "pid p = 0 \<or> pid p = 4")
  case True
  then show ?thesis by (simp add: body_V3_skip)
next
  case False
  then show ?thesis using body_V3_log [of p H w] iteration_log_quiet by blast
qed

lemma loop_V3_quiet: "samples (fst (loop_V3 H ps w)) = [] \<and> emissions (fst (loop_V3 H ps w)) = []"
proof (induction ps arbitrary: w)
  case Nil
  then show ?case by simp
next
  case (Cons p ps)
  show ?case
    unfolding loop_V3_Cons samples_append emissions_append
    using body_V3_quiet [of H p w] Cons.IH by simp
qed

lemma run_V3_form:
  assumes "b = fst (virtual_memory_available H w)"
    and "w1 = snd (virtual_memory_available H w)"
    and "cur = fst (GetCurrentProcess H (gc_collect H w1))"
    and "w2 = snd (GetCurrentProcess H (gc_collect H w1))"
    and "r = fst (EmptyWorkingSet H cur w2)"
    and "w3 = snd (EmptyWorkingSet H cur w2)"
    and "ps = fst (process_iter H w3)"
    and "w4 = snd (process_iter H w3)"
    and "a = fst (virtual_memory_available H (snd (loop_V3 H ps w4)))"
  shows "fst (run_V3 H w) =
     [Sampled b, Collected, Current cur, Trimmed cur r, Enumerated ps]
       @ fst (loop_V3 H ps w4) @ [Sampled a, Emitted (Signal_int (max 0 (a - b)))]"
  unfolding assms run_V3_def by (simp add: case_prod_beta Let_def max_def not_less)

lemma run_V3_shape:
  "\<exists>b cur r ps w4 a. fst (run_V3 H w) =
     [Sampled b, Collected, Current cur, Trimmed cur r, Enumerated ps]
       @ fst (loop_V3 H ps w4) @ [Sampled a, Emitted (Signal_int (max 0 (a - b)))]"
  by (intro exI, rule run_V3_form) (rule refl)+

lemma run_V3_samples_emissions:
  "\<exists>b a. samples (fst (run_V3 H w)) = [b, a] \<and> emissions (fst (run_V3 H w)) = [Signal_int (max 0 (a - b))]"
proof -
  obtain b cur r ps w4 a where
    "fst (run_V3 H w) = [Sampled b, Collected, Current cur, Trimmed cur r, Enumerated ps]
       @ fst (loop_V3 H ps w4) @ [Sampled a, Emitted (Signal_int (max 0 (a - b)))]"
    using run_V3_shape [of H w] by (elim exE)
  then have "samples (fst (run_V3 H w)) = [b, a] \<and> emissions (fst (run_V3 H w)) = [Signal_int (max 0 (a - b))]"
    by (simp add: samples_append emissions_append loop_V3_quiet)
  then show ?thesis by blast
qed

subsection \<open>Handle discipline of the loop\<close>







lemma trims_follow_opens_Nil: "trims_follow_opens []"
  by (simp add: trims_follow_opens_def)

lemma trims_follow_opens_append:
  assumes A: "trims_follow_opens A" and B: "trims_follow_opens B"
  shows "trims_follow_opens (A @ B)"
  unfolding trims_follow_opens_def
proof (intro allI impI)
  fix xs h r ys
  assume eq: "A @ B = xs @ Trimmed h r # ys"
  then consider us where "A = xs @ us" "Trimmed h r # ys = us @ B"
    | us where "xs = A @ us" "B = us @ Trimmed h r # ys"
    by (auto simp: append_eq_append_conv2)
  then show "\<exists>xs' a i. xs = xs' @ [Opened a False i (Returned h)] \<and> i \<noteq> 0 \<and> i \<noteq> 4"
  proof cases
    case 1
    show ?thesis
    proof (cases us)
      case Nil
      with 1 have "B = [] @ Trimmed h r # ys" by simp
      with B show ?thesis unfolding trims_follow_opens_def by blast
    next
      case (Cons u us')
      with 1 have "A = xs @ Trimmed h r # us'" by simp
      with A show ?thesis unfolding trims_follow_opens_def by blast
    qed
  next
    case 2
    with B obtain xs' a i where "us = xs' @ [Opened a False i (Returned h)]" "i \<noteq> 0" "i \<noteq> 4"
      unfolding trims_follow_opens_def by blast
    with 2 have "xs = (A @ xs') @ [Opened a False i (Returned h)]" by simp
    with \<open>i \<noteq> 0\<close> \<open>i \<noteq> 4\<close> show ?thesis by blast
  qed
qed

lemma iteration_log_trims_follow_opens:
  "iteration_log i evs \<Longrightarrow> i \<noteq> 0 \<Longrightarrow> i \<noteq> 4 \<Longrightarrow> trims_follow_opens evs"
  by (induction rule: iteration_log.induct)
    (auto simp: trims_follow_opens_def append_eq_Cons_conv Cons_eq_append_conv)

lemma iteration_log_pids:
  "iteration_log i evs \<Longrightarrow> Opened a b j r \<in> set evs \<Longrightarrow> j = i"
  by (induction rule: iteration_log.induct) auto

lemma iteration_log_closes: "iteration_log i evs \<Longrightarrow> closes evs = acquisitions evs"
  by (induction rule: iteration_log.induct) auto

lemma iteration_log_trims: "iteration_log i evs \<Longrightarrow> trims evs = acquisitions evs"
  by (induction rule: iteration_log.induct) auto

text \<open>What holds of the empty log and of every log of one iteration holds of the loop.\<close>

lemma loop_V3_induct:
  assumes nil: "P []"
    and app: "\<And>xs ys. P xs \<Longrightarrow> P ys \<Longrightarrow> P (xs @ ys)"
    and it: "\<And>i evs. i \<noteq> 0 \<Longrightarrow> i \<noteq> 4 \<Longrightarrow> iteration_log i evs \<Longrightarrow> P evs"
  shows "P (fst (loop_V3 H ps w))"
proof (induction ps arbitrary: w)
  case Nil
  show ?case using nil by simp
next
  case (Cons p ps)
  have "P (fst (body_V3 H p w))"
  proof (cases "pid p = 0 \<or> pid p = 4")
    case True
    then show ?thesis using nil by (simp add: body_V3_skip)
  next
    case False
    then show ?thesis using it [of "pid p"] body_V3_log [of p H w] by blast
  qed
  then show ?case unfolding loop_V3_Cons using Cons.IH app by blast
qed


lemma loop_V3_trims_follow_opens: "trims_follow_opens (fst (loop_V3 H ps w))"
  by (rule loop_V3_induct)
    (simp_all add: trims_follow_opens_Nil trims_follow_opens_append
      iteration_log_trims_follow_opens)

lemma loop_V3_pids: "\<forall>a b j r. Opened a b j r \<in> set (fst (loop_V3 H ps w)) \<longrightarrow> j \<noteq> 0 \<and> j \<noteq> 4"
proof (rule loop_V3_induct)
  show "\<forall>a b j r. Opened a b j r \<in> set [] \<longrightarrow> j \<noteq> 0 \<and> j \<noteq> 4" by simp
next
  fix xs ys :: "event list"
  assume "\<forall>a b j r. Opened a b j r \<in> set xs \<longrightarrow> j \<noteq> 0 \<and> j \<noteq> 4"
    and "\<forall>a b j r. Opened a b j r \<in> set ys \<longrightarrow> j \<noteq> 0 \<and> j \<noteq> 4"
  then show "\<forall>a b j r. Opened a b j r \<in> set (xs @ ys) \<longrightarrow> j \<noteq> 0 \<and> j \<noteq> 4"
    by (metis Un_iff set_append)
next
  fix i evs
  assume "i \<noteq> 0" "i \<noteq> 4" "iteration_log i evs"
  then show "\<forall>a b j r. Opened a b j r \<in> set evs \<longrightarrow> j \<noteq> 0 \<and> j \<noteq> 4"
    using iteration_log_pids by blast
qed

lemma loop_V3_closes: "closes (fst (loop_V3 H ps w)) = acquisitions (fst (loop_V3 H ps w))"
  by (rule loop_V3_induct) (simp_all add: closes_append acquisitions_append iteration_log_closes)

lemma loop_V3_trims: "trims (fst (loop_V3 H ps w)) = acquisitions (fst (loop_V3 H ps w))"
  by (rule loop_V3_induct) (simp_all add: trims_append acquisitions_append iteration_log_trims)

lemma loop_V3_filter:
  "loop_V3 H (filter (\<lambda>p. pid p \<noteq> 0 \<and> pid p \<noteq> 4) ps) w = loop_V3 H ps w"
  by (induction ps arbitrary: w) (auto simp: body_V3_skip)

subsection \<open>The log is what the host was asked\<close>

lemma replay_append:
  "replay H w (xs @ ys) = (case replay H w xs of None \<Rightarrow> None | Some w' \<Rightarrow> replay H w' ys)"
  by (induction H w xs rule: replay.induct) (simp_all split: prod.splits)

lemma body_V3_replay: "replay H w (fst (body_V3 H p w)) = Some (snd (body_V3 H p w))"
  by (auto simp: body_V3_def try_V3_def trim_if_V3_def Let_def
      split: prod.splits outcome.splits)

lemma loop_V3_replay: "replay H w (fst (loop_V3 H ps w)) = Some (snd (loop_V3 H ps w))"
proof (induction ps arbitrary: w)
  case Nil
  show ?case by simp
next
  case (Cons p ps)
  show ?case
    using body_V3_replay [of H w p] Cons.IH [of "snd (body_V3 H p w)"]
    by (simp add: replay_append case_prod_beta)
qed

lemma run_V3_world:
  assumes "w1 = snd (virtual_memory_available H w)"
    and "cur = fst (GetCurrentProcess H (gc_collect H w1))"
    and "w2 = snd (GetCurrentProcess H (gc_collect H w1))"
    and "w3 = snd (EmptyWorkingSet H cur w2)"
    and "ps = fst (process_iter H w3)"
    and "w4 = snd (process_iter H w3)"
  shows "snd (run_V3 H w) = snd (virtual_memory_available H (snd (loop_V3 H ps w4)))"
  unfolding assms run_V3_def by (simp add: case_prod_beta Let_def)

lemma run_V3_replay: "replay H w (fst (run_V3 H w)) = Some (snd (run_V3 H w))"
  using loop_V3_replay [of H
      "snd (process_iter H (snd (EmptyWorkingSet H
          (fst (GetCurrentProcess H (gc_collect H (snd (virtual_memory_available H w)))))
          (snd (GetCurrentProcess H (gc_collect H (snd (virtual_memory_available H w))))))))"
      "fst (process_iter H (snd (EmptyWorkingSet H
          (fst (GetCurrentProcess H (gc_collect H (snd (virtual_memory_available H w)))))
          (snd (GetCurrentProcess H (gc_collect H (snd (virtual_memory_available H w))))))))"]
  by (simp add: run_V3_def case_prod_beta Let_def replay_append)

lemma Signal_int_small: "- 2147483648 \<le> v \<Longrightarrow> v < 2147483648 \<Longrightarrow> Signal_int v = v"
  by (simp add: Signal_int_def)

lemma run_V3_anatomy:
  "\<exists>b w1 cur w2 r w3 ps w4 evs w5 a w6.
      virtual_memory_available H w = (b, w1)
    \<and> GetCurrentProcess H (gc_collect H w1) = (cur, w2)
    \<and> EmptyWorkingSet H cur w2 = (r, w3)
    \<and> process_iter H w3 = (ps, w4)
    \<and> loop_V3 H ps w4 = (evs, w5)
    \<and> virtual_memory_available H w5 = (a, w6)
    \<and> run_V3 H w =
        ([Sampled b, Collected, Current cur, Trimmed cur r, Enumerated ps]
           @ evs @ [Sampled a, Emitted (Signal_int (max 0 (a - b)))], w6)"
proof -
  obtain b w1 where 1: "virtual_memory_available H w = (b, w1)" by fastforce
  obtain cur w2 where 2: "GetCurrentProcess H (gc_collect H w1) = (cur, w2)" by fastforce
  obtain r w3 where 3: "EmptyWorkingSet H cur w2 = (r, w3)" by fastforce
  obtain ps w4 where 4: "process_iter H w3 = (ps, w4)" by fastforce
  obtain evs w5 where 5: "loop_V3 H ps w4 = (evs, w5)" by fastforce
  obtain a w6 where 6: "virtual_memory_available H w5 = (a, w6)" by fastforce
  have "run_V3 H w =
        ([Sampled b, Collected, Current cur, Trimmed cur r, Enumerated ps]
           @ evs @ [Sampled a, Emitted (Signal_int (max 0 (a - b)))], w6)"
    by (simp add: run_V3_def 1 2 3 4 5 6 Let_def max_def not_less)
  with 1 2 3 4 5 6 show ?thesis by blast
qed

lemma replay_prologue:
  assumes "GetCurrentProcess H (gc_collect H w1) = (cur, w2)"
    and "EmptyWorkingSet H cur w2 = (r, w3)"
    and "process_iter H w3 = (ps, w4)"
    and "loop_V3 H ps w4 = (evs, w5)"
  shows "replay H w1 ([Collected, Current cur, Trimmed cur r, Enumerated ps] @ evs) = Some w5"
  using assms loop_V3_replay [of H w4 ps] by simp

subsection \<open>Evaluating the examples\<close>

lemmas demo_defs = scripted_def metered_def demo_procs_def proc_def demo_open_def demo_trim_def refuse_all_def
  run_V1_def run_V3_def body_V1_def body_V3_def try_V1_def try_V3_def trim_if_V1_def trim_if_V3_def
  full_access limited_access Signal_int_def

subsection \<open>Processes 0 and 4\<close>

lemma run_V3_pids:
  "\<forall>a b j r. Opened a b j r \<in> set (fst (run_V3 H w)) \<longrightarrow> j \<noteq> 0 \<and> j \<noteq> 4"
proof -
  obtain b cur r ps w4 a where
    "fst (run_V3 H w) = [Sampled b, Collected, Current cur, Trimmed cur r, Enumerated ps]
       @ fst (loop_V3 H ps w4) @ [Sampled a, Emitted (Signal_int (max 0 (a - b)))]"
    using run_V3_shape [of H w] by (elim exE)
  then show ?thesis using loop_V3_pids [of H ps w4] by auto
qed

lemma run_V3_trims_located:
  assumes "fst (run_V3 H w) = xs @ Trimmed h r # ys"
  shows "(\<exists>b. xs = [Sampled b, Collected, Current h])
       \<or> (\<exists>xs' a i. xs = xs' @ [Opened a False i (Returned h)] \<and> i \<noteq> 0 \<and> i \<noteq> 4)"
proof -
  obtain b cur r0 ps w4 a where form:
    "fst (run_V3 H w) = [Sampled b, Collected, Current cur, Trimmed cur r0, Enumerated ps]
       @ fst (loop_V3 H ps w4) @ [Sampled a, Emitted (Signal_int (max 0 (a - b)))]"
    using run_V3_shape [of H w] by (elim exE)
  let ?L = "fst (loop_V3 H ps w4)"
  have "trims_follow_opens ([Enumerated ps] @ ?L @ [Sampled a, Emitted (Signal_int (max 0 (a - b)))])"
    by (intro trims_follow_opens_append loop_V3_trims_follow_opens)
      (auto simp: trims_follow_opens_def append_eq_Cons_conv Cons_eq_append_conv)
  then have tail: "trims_follow_opens (Enumerated ps # ?L @ [Sampled a, Emitted (Signal_int (max 0 (a - b)))])"
    by simp
  from assms form have
    "Sampled b # Collected # Current cur # Trimmed cur r0 #
       (Enumerated ps # ?L @ [Sampled a, Emitted (Signal_int (max 0 (a - b)))]) = xs @ Trimmed h r # ys"
    by simp
  then consider "xs = [Sampled b, Collected, Current cur]" "h = cur"
    | us where "xs = [Sampled b, Collected, Current cur, Trimmed cur r0] @ us"
        "Enumerated ps # ?L @ [Sampled a, Emitted (Signal_int (max 0 (a - b)))] = us @ Trimmed h r # ys"
    by (auto simp: Cons_eq_append_conv)
  then show ?thesis
  proof cases
    case 1
    then show ?thesis by blast
  next
    case 2
    with tail obtain xs' a' i where "us = xs' @ [Opened a' False i (Returned h)]" "i \<noteq> 0" "i \<noteq> 4"
      unfolding trims_follow_opens_def by metis
    with 2 have "xs = ([Sampled b, Collected, Current cur, Trimmed cur r0] @ xs')
        @ [Opened a' False i (Returned h)]" by simp
    with \<open>i \<noteq> 0\<close> \<open>i \<noteq> 4\<close> show ?thesis by blast
  qed
qed

text \<open>
  Claim C2. In both variants, an iteration for a record whose process id is 0 or 4 makes no
  call at all and leaves the world as it was, so the loop gives the same log and the same
  world as over the list without these records. No request to open a process in the log of
  any run names process 0 or 4, and every \<^verbatim>\<open>EmptyWorkingSet\<close> of a run is either the trim
  of the engine's own handle or comes right after the request, for a process other than 0
  and 4, that returned the handle it is given.
\<close>

theorem system_pids_never_targeted:
  "(pid p = 0 \<or> pid p = 4 \<longrightarrow> body v H p w = ([], w))
   \<and> loop v H (filter (\<lambda>p. pid p \<noteq> 0 \<and> pid p \<noteq> 4) ps) w = loop v H ps w
   \<and> (\<forall>a b i r. Opened a b i r \<in> set (fst (run v H w)) \<longrightarrow> i \<noteq> 0 \<and> i \<noteq> 4)
   \<and> (\<forall>xs h r ys. fst (run v H w) = xs @ Trimmed h r # ys \<longrightarrow>
         (\<exists>b. xs = [Sampled b, Collected, Current h])
         \<or> (\<exists>xs' a i. xs = xs' @ [Opened a False i (Returned h)] \<and> i \<noteq> 0 \<and> i \<noteq> 4))"
  unfolding body_variant loop_variant run_variant
  using body_V3_skip [of p H w] loop_V3_filter [of H ps w] run_V3_pids [of H w]
    run_V3_trims_located [of H w]
  by blast


theorem system_pids_never_targeted_witness:
  "body V3 (scripted demo_procs demo_open demo_trim) (proc 0) [] = ([], [])
   \<and> body V1 (scripted demo_procs demo_open demo_trim) (proc 4) [] = ([], [])
   \<and> Opened 0x0500 False 0 (Returned (Some 8))
        \<notin> set (fst (run V3 (scripted demo_procs demo_open demo_trim) [2000000000, 2300000000]))
   \<and> Opened 0x0500 False 4 (Returned (Some 12))
        \<notin> set (fst (run V1 (scripted demo_procs demo_open demo_trim) [2000000000, 2300000000]))"
proof -
  let ?D = "scripted demo_procs demo_open demo_trim"
  note skip0 = system_pids_never_targeted
    [where p = "proc 0" and v = V3 and H = ?D and w = "[]", THEN conjunct1]
  note skip4 = system_pids_never_targeted
    [where p = "proc 4" and v = V1 and H = ?D and w = "[]", THEN conjunct1]
  note open3 = system_pids_never_targeted
    [where v = V3 and H = ?D and w = "[2000000000, 2300000000]",
      THEN conjunct2, THEN conjunct2, THEN conjunct1]
  note open1 = system_pids_never_targeted
    [where v = V1 and H = ?D and w = "[2000000000, 2300000000]",
      THEN conjunct2, THEN conjunct2, THEN conjunct1]
  have "body V3 ?D (proc 0) [] = ([], [])" using skip0 by (simp add: proc_def)
  moreover have "body V1 ?D (proc 4) [] = ([], [])" using skip4 by (simp add: proc_def)
  moreover have "Opened 0x0500 False 0 (Returned (Some 8))
      \<notin> set (fst (run V3 ?D [2000000000, 2300000000]))" using open3 by blast
  moreover have "Opened 0x0500 False 4 (Returned (Some 12))
      \<notin> set (fst (run V1 ?D [2000000000, 2300000000]))" using open1 by blast
  ultimately show ?thesis by simp
qed

subsection \<open>Every handle acquired is closed once\<close>

lemma iteration_log_closed_once:
  assumes "iteration_log i evs" "Opened a b j (Returned h) \<in> set evs" "truthy h"
  shows "\<exists>pre r. evs = pre @ [Trimmed h r, Closed h] \<and> trims pre = [] \<and> closes pre = []"
  using assms
proof (induction rule: iteration_log.induct)
  case (first_opened h' r)
  then have "h = h'" by simp
  then have "[Opened 0x0500 False i (Returned h'), Trimmed h' r, Closed h']
      = [Opened 0x0500 False i (Returned h')] @ [Trimmed h r, Closed h]
    \<and> trims [Opened 0x0500 False i (Returned h')] = []
    \<and> closes [Opened 0x0500 False i (Returned h')] = []" by simp
  then show ?case by blast
next
  case (second_opened h1 h2 r)
  then have "h = h2" by auto
  then have "[Opened 0x0500 False i (Returned h1), Opened 0x1100 False i (Returned h2),
        Trimmed h2 r, Closed h2]
      = [Opened 0x0500 False i (Returned h1), Opened 0x1100 False i (Returned h2)]
          @ [Trimmed h r, Closed h]
    \<and> trims [Opened 0x0500 False i (Returned h1), Opened 0x1100 False i (Returned h2)] = []
    \<and> closes [Opened 0x0500 False i (Returned h1), Opened 0x1100 False i (Returned h2)] = []"
    by simp
  then show ?case by blast
qed auto

lemma run_V3_closes: "closes (fst (run_V3 H w)) = acquisitions (fst (run_V3 H w))"
proof -
  obtain b cur r ps w4 a where
    "fst (run_V3 H w) = [Sampled b, Collected, Current cur, Trimmed cur r, Enumerated ps]
       @ fst (loop_V3 H ps w4) @ [Sampled a, Emitted (Signal_int (max 0 (a - b)))]"
    using run_V3_shape [of H w] by (elim exE)
  then show ?thesis
    by (simp add: closes_append acquisitions_append loop_V3_closes)
qed

text \<open>
  Claim C3. In both variants, when a request of an iteration returns a true handle \<open>h\<close>, at
  either tier, the log of that iteration ends with the trim of \<open>h\<close> followed by the one
  \<^verbatim>\<open>CloseHandle h\<close>: nothing is trimmed or closed before them and nothing at all happens
  after the close. These are calls made of the host: the requests before them leave a world
  \<open>w1\<close>, \<^verbatim>\<open>EmptyWorkingSet\<close> is asked to trim \<open>h\<close> in \<open>w1\<close> and answers \<open>r\<close>, leaving \<open>w2\<close>, and
  the world the iteration leaves is the one \<^verbatim>\<open>CloseHandle\<close> makes of \<open>w2\<close>. The answer \<open>r\<close>
  is arbitrary: a true result, a false result or an exception. Over a whole run the handles
  closed are, in order, the handles acquired, and the log replays on the host to the world
  the run leaves.
\<close>

theorem acquired_handle_closed_once:
  "(\<forall>a b i h. Opened a b i (Returned h) \<in> set (fst (body v H p w)) \<and> truthy h \<longrightarrow>
      (\<exists>pre r w1 w2. fst (body v H p w) = pre @ [Trimmed h r, Closed h]
         \<and> trims pre = [] \<and> closes pre = []
         \<and> replay H w pre = Some w1
         \<and> EmptyWorkingSet H h w1 = (r, w2)
         \<and> snd (body v H p w) = CloseHandle H h w2))
   \<and> closes (fst (run v H w')) = acquisitions (fst (run v H w'))
   \<and> replay H w' (fst (run v H w')) = Some (snd (run v H w'))"
  unfolding body_variant run_variant
proof (intro conjI allI impI)
  fix a b i h
  assume "Opened a b i (Returned h) \<in> set (fst (body_V3 H p w)) \<and> truthy h"
  then have mem: "Opened a b i (Returned h) \<in> set (fst (body_V3 H p w))" and t: "truthy h"
    by simp_all
  have "\<exists>pre r. fst (body_V3 H p w) = pre @ [Trimmed h r, Closed h]
         \<and> trims pre = [] \<and> closes pre = []"
  proof (cases "pid p = 0 \<or> pid p = 4")
    case True
    with mem show ?thesis by (simp add: body_V3_skip)
  next
    case False
    then have "iteration_log (pid p) (fst (body_V3 H p w))" by (simp add: body_V3_log)
    then show ?thesis using mem t by (rule iteration_log_closed_once)
  qed
  then obtain pre r where log: "fst (body_V3 H p w) = pre @ [Trimmed h r, Closed h]"
    and quiet: "trims pre = []" "closes pre = []" by (elim exE conjE)
  have "replay H w (pre @ [Trimmed h r, Closed h]) = Some (snd (body_V3 H p w))"
    using body_V3_replay [of H w p] log by simp
  then obtain w1 where pre: "replay H w pre = Some w1"
    and post: "replay H w1 [Trimmed h r, Closed h] = Some (snd (body_V3 H p w))"
    by (auto simp: replay_append split: option.splits)
  obtain r' w2 where trim: "EmptyWorkingSet H h w1 = (r', w2)" by fastforce
  with post have "r' = r" and "snd (body_V3 H p w) = CloseHandle H h w2"
    by (simp_all split: if_splits)
  with log quiet pre trim
  show "\<exists>pre r w1 w2. fst (body_V3 H p w) = pre @ [Trimmed h r, Closed h]
         \<and> trims pre = [] \<and> closes pre = []
         \<and> replay H w pre = Some w1
         \<and> EmptyWorkingSet H h w1 = (r, w2)
         \<and> snd (body_V3 H p w) = CloseHandle H h w2" by blast
next
  show "closes (fst (run_V3 H w')) = acquisitions (fst (run_V3 H w'))"
    by (rule run_V3_closes)
next
  show "replay H w' (fst (run_V3 H w')) = Some (snd (run_V3 H w'))"
    by (rule run_V3_replay)
qed

theorem acquired_handle_closed_once_witness:
  "Opened 0x1100 False 200 (Returned (Some 208))
      \<in> set (fst (body V3 (metered demo_procs demo_open) (proc 200) 0))
   \<and> truthy (Some 208)
   \<and> (\<exists>pre r w1 w2. fst (body V3 (metered demo_procs demo_open) (proc 200) 0)
          = pre @ [Trimmed (Some 208) r, Closed (Some 208)] \<and> trims pre = [] \<and> closes pre = []
        \<and> replay (metered demo_procs demo_open) 0 pre = Some w1
        \<and> EmptyWorkingSet (metered demo_procs demo_open) (Some 208) w1 = (r, w2)
        \<and> snd (body V3 (metered demo_procs demo_open) (proc 200) 0)
            = CloseHandle (metered demo_procs demo_open) (Some 208) w2)
   \<and> snd (body V3 (metered demo_procs demo_open) (proc 200) 0) = 1010
   \<and> Trimmed (Some 208) Raised
      \<in> set (fst (body V3 (scripted demo_procs demo_open demo_trim) (proc 200) []))"
proof -
  let ?M = "metered demo_procs demo_open"
  have 1: "Opened 0x1100 False 200 (Returned (Some 208)) \<in> set (fst (body V3 ?M (proc 200) 0))"
    by (simp add: demo_defs)
  have 2: "Trimmed (Some 208) Raised
      \<in> set (fst (body V3 (scripted demo_procs demo_open demo_trim) (proc 200) []))"
    by (simp add: demo_defs)
  have 3: "truthy (Some 208)" by simp
  have 4: "snd (body V3 ?M (proc 200) 0) = 1010" by (simp add: demo_defs)
  note closed = acquired_handle_closed_once
    [where v = V3 and H = ?M and p = "proc 200" and w = 0, THEN conjunct1,
      THEN spec, THEN spec, THEN spec, THEN spec, THEN mp, OF conjI, OF 1 3]
  from 1 3 closed 4 2 show ?thesis by (intro conjI)
qed

subsection \<open>The cascade of access rights\<close>





subsection \<open>One handle at a time\<close>







lemma demo_log:
  "fst (run_V3 (scripted demo_procs demo_open demo_trim) [2000000000, 2300000000]) =
     [Sampled 2000000000, Collected, Current (Some (- 1)), Trimmed (Some (- 1)) (Returned 0),
      Enumerated demo_procs,
      Opened 0x0500 False 100 (Returned (Some 108)), Trimmed (Some 108) (Returned 1),
      Closed (Some 108),
      Opened 0x0500 False 200 (Returned None), Opened 0x1100 False 200 (Returned (Some 208)),
      Trimmed (Some 208) Raised, Closed (Some 208),
      Opened 0x0500 False 300 (Returned None), Opened 0x1100 False 300 (Returned None),
      Opened 0x0500 False 400 Raised,
      Opened 0x0500 False 500 (Returned (Some 0)), Opened 0x1100 False 500 Raised,
      Sampled 2300000000, Emitted 300000000]"
  by (simp add: demo_defs)


subsection \<open>The trim of the engine's own process\<close>

text \<open>
  Claim C5. In both variants and for every host, a run begins with the sample, the garbage
  collection, \<^verbatim>\<open>GetCurrentProcess\<close> and \<^verbatim>\<open>EmptyWorkingSet\<close> on the handle it returned, in
  this order; the processes are enumerated and the loop runs only after that. The four
  answers are those the host gives from the initial world. They do not depend on what
  \<^verbatim>\<open>OpenProcess\<close>, \<^verbatim>\<open>CloseHandle\<close> or the trims of other processes answer later. The
  answer \<open>r\<close> of the trim may be a true result, a false result or an exception: the
  enumeration and the loop follow in each case.
\<close>

theorem self_trim_precedes_the_loop:
  "\<exists>b w1 cur w2 r w3 ps w4 a.
      virtual_memory_available H w = (b, w1)
    \<and> GetCurrentProcess H (gc_collect H w1) = (cur, w2)
    \<and> EmptyWorkingSet H cur w2 = (r, w3)
    \<and> process_iter H w3 = (ps, w4)
    \<and> fst (run v H w) =
        [Sampled b, Collected, Current cur, Trimmed cur r, Enumerated ps]
          @ fst (loop v H ps w4) @ [Sampled a, Emitted (Signal_int (max 0 (a - b)))]"
proof -
  define b w1 where "b = fst (virtual_memory_available H w)"
    and "w1 = snd (virtual_memory_available H w)"
  define cur w2 where "cur = fst (GetCurrentProcess H (gc_collect H w1))"
    and "w2 = snd (GetCurrentProcess H (gc_collect H w1))"
  define r w3 where "r = fst (EmptyWorkingSet H cur w2)"
    and "w3 = snd (EmptyWorkingSet H cur w2)"
  define ps w4 where "ps = fst (process_iter H w3)" and "w4 = snd (process_iter H w3)"
  define a where "a = fst (virtual_memory_available H (snd (loop_V3 H ps w4)))"
  have "fst (run_V3 H w) =
      [Sampled b, Collected, Current cur, Trimmed cur r, Enumerated ps]
        @ fst (loop_V3 H ps w4) @ [Sampled a, Emitted (Signal_int (max 0 (a - b)))]"
    by (rule run_V3_form) (simp_all only: b_def w1_def cur_def w2_def r_def w3_def ps_def
        w4_def a_def)
  moreover have "virtual_memory_available H w = (b, w1)"
    "GetCurrentProcess H (gc_collect H w1) = (cur, w2)"
    "EmptyWorkingSet H cur w2 = (r, w3)" "process_iter H w3 = (ps, w4)"
    by (simp_all add: b_def w1_def cur_def w2_def r_def w3_def ps_def w4_def)
  ultimately show ?thesis unfolding run_variant loop_variant by blast
qed

theorem self_trim_precedes_the_loop_witness:
  "take 4 (fst (run V3 (scripted demo_procs demo_open demo_trim) [2000000000, 2300000000]))
     = [Sampled 2000000000, Collected, Current (Some (- 1)), Trimmed (Some (- 1)) (Returned 0)]
   \<and> take 4 (fst (run V1 (scripted demo_procs refuse_all demo_trim) [2000000000, 1950000000]))
     = [Sampled 2000000000, Collected, Current (Some (- 1)), Trimmed (Some (- 1)) (Returned 0)]"
proof -
  have "take 4 (fst (run v (scripted ps opn demo_trim) (2000000000 # ws)))
     = [Sampled 2000000000, Collected, Current (Some (- 1)), Trimmed (Some (- 1)) (Returned 0)]"
    for v ps opn ws
  proof -
    let ?H = "scripted ps opn demo_trim"
    from self_trim_precedes_the_loop [of ?H "2000000000 # ws" v]
    obtain b w1 cur w2 r w3 qs w4 a where
      s: "virtual_memory_available ?H (2000000000 # ws) = (b, w1)"
      and c: "GetCurrentProcess ?H (gc_collect ?H w1) = (cur, w2)"
      and t: "EmptyWorkingSet ?H cur w2 = (r, w3)"
      and log: "fst (run v ?H (2000000000 # ws)) =
        [Sampled b, Collected, Current cur, Trimmed cur r, Enumerated qs]
          @ fst (loop v ?H qs w4) @ [Sampled a, Emitted (Signal_int (max 0 (a - b)))]"
      by (elim exE conjE)
    from s have "b = 2000000000" by (simp add: scripted_def)
    moreover from c have "cur = Some (- 1)" by (auto simp: scripted_def)
    moreover from t \<open>cur = Some (- 1)\<close> have "r = Returned 0"
      by (auto simp: scripted_def demo_trim_def)
    ultimately show ?thesis unfolding log by simp
  qed
  then show ?thesis by blast
qed

subsection \<open>The two samples\<close>

text \<open>
  Claim C7. In both variants and for every host, the log of a run is the first sample, a
  middle part, the second sample and the emission. The first sample is what the host
  answers in the initial world. The middle part holds no sample and holds every trim of
  the run, the trim of the engine's own process among them; its calls, made of the host in
  order from the world the first sample left, leave a world \<open>w5\<close>. The second sample is
  what the host answers in \<open>w5\<close>, and the world it leaves is the world the run leaves. So a
  run takes exactly two samples, one before every trim and one after the last.
\<close>

theorem samples_bracket_the_trimming:
  "\<exists>b w1 mid w5 a w6 f.
      fst (run v H w) = Sampled b # mid @ [Sampled a, Emitted f]
    \<and> virtual_memory_available H w = (b, w1)
    \<and> replay H w1 mid = Some w5
    \<and> virtual_memory_available H w5 = (a, w6)
    \<and> snd (run v H w) = w6
    \<and> samples mid = []
    \<and> trims mid = trims (fst (run v H w))
    \<and> trims mid \<noteq> []
    \<and> samples (fst (run v H w)) = [b, a]"
proof -
  obtain b w1 cur w2 r w3 ps w4 evs w5 a w6 where
    s1: "virtual_memory_available H w = (b, w1)"
    and c: "GetCurrentProcess H (gc_collect H w1) = (cur, w2)"
    and t: "EmptyWorkingSet H cur w2 = (r, w3)"
    and e: "process_iter H w3 = (ps, w4)"
    and l: "loop_V3 H ps w4 = (evs, w5)"
    and s2: "virtual_memory_available H w5 = (a, w6)"
    and run: "run_V3 H w =
        ([Sampled b, Collected, Current cur, Trimmed cur r, Enumerated ps]
           @ evs @ [Sampled a, Emitted (Signal_int (max 0 (a - b)))], w6)"
    using run_V3_anatomy [of H w] by (elim exE conjE)
  let ?mid = "[Collected, Current cur, Trimmed cur r, Enumerated ps] @ evs"
  have quiet: "samples evs = []" using loop_V3_quiet [of H ps w4] l by simp
  have "fst (run_V3 H w) = Sampled b # ?mid @ [Sampled a, Emitted (Signal_int (max 0 (a - b)))]"
    using run by simp
  moreover have "replay H w1 ?mid = Some w5" by (rule replay_prologue [OF c t e l])
  moreover have "snd (run_V3 H w) = w6" using run by simp
  moreover have "samples ?mid = []" using quiet by (simp add: samples_append)
  moreover have "trims ?mid = trims (fst (run_V3 H w))" using run by (simp add: trims_append)
  moreover have "trims ?mid \<noteq> []" by simp
  moreover have "samples (fst (run_V3 H w)) = [b, a]"
    using run quiet by (simp add: samples_append)
  ultimately show ?thesis unfolding run_variant using s1 s2 by blast
qed

theorem samples_bracket_the_trimming_witness:
  "\<exists>mid f. fst (run V3 (metered demo_procs demo_open) 2000000000)
       = Sampled 2000000000 # mid @ [Sampled 2000003021, Emitted f]
     \<and> replay (metered demo_procs demo_open) 2000000000 mid = Some 2000003021
     \<and> samples mid = []
     \<and> trims mid = [Some (- 1), Some 108, Some 208]"
proof -
  let ?M = "metered demo_procs demo_open"
  let ?log = "fst (run V3 ?M 2000000000)"
  have s: "samples ?log = [2000000000, 2000003021]" by (simp add: demo_defs)
  have t: "trims ?log = [Some (- 1), Some 108, Some 208]" by (simp add: demo_defs)
  from samples_bracket_the_trimming [of V3 ?M 2000000000]
  obtain b w1 mid w5 a w6 f where log: "?log = Sampled b # mid @ [Sampled a, Emitted f]"
    and first: "virtual_memory_available ?M 2000000000 = (b, w1)"
    and mid: "replay ?M w1 mid = Some w5"
    and second: "virtual_memory_available ?M w5 = (a, w6)"
    and rest: "samples mid = []" "trims mid = trims ?log" "samples ?log = [b, a]"
    by (elim exE conjE)
  from first have "w1 = 2000000000" by (auto simp: metered_def)
  moreover from rest s have "b = 2000000000" "a = 2000003021" by simp_all
  moreover from second \<open>a = 2000003021\<close> have "w5 = 2000003021" by (auto simp: metered_def)
  ultimately have "?log = Sampled 2000000000 # mid @ [Sampled 2000003021, Emitted f]
     \<and> replay ?M 2000000000 mid = Some 2000003021
     \<and> samples mid = [] \<and> trims mid = [Some (- 1), Some 108, Some 208]"
    using log mid rest t by simp
  then show ?thesis by blast
qed

subsection \<open>The two variants agree\<close>

text \<open>
  Claim C8. On the same host and from the same world, \<^verbatim>\<open>MemoryCleaner.run\<close> of
  \<^verbatim>\<open>app_V1.py\<close> and of \<^verbatim>\<open>app_V3.py\<close> give the same log, hence the same calls in the same
  order with the same answers and the same value emitted, and leave the same world. The
  same holds of the loop and of one iteration.
\<close>

theorem variants_equivalent:
  "run_V1 H w = run_V3 H w \<and> loop_V1 H ps w = loop_V3 H ps w \<and> body_V1 H p w = body_V3 H p w"
  unfolding run_V1_def run_V3_def loop_V1_V3 body_V1_V3 by simp

theorem variants_equivalent_witness:
  "run_V1 (scripted demo_procs demo_open demo_trim) [2000000000, 2300000000]
     = run_V3 (scripted demo_procs demo_open demo_trim) [2000000000, 2300000000]
   \<and> fst (run_V1 (scripted demo_procs demo_open demo_trim) [2000000000, 2300000000]) =
     [Sampled 2000000000, Collected, Current (Some (- 1)), Trimmed (Some (- 1)) (Returned 0),
      Enumerated demo_procs,
      Opened 0x0500 False 100 (Returned (Some 108)), Trimmed (Some 108) (Returned 1),
      Closed (Some 108),
      Opened 0x0500 False 200 (Returned None), Opened 0x1100 False 200 (Returned (Some 208)),
      Trimmed (Some 208) Raised, Closed (Some 208),
      Opened 0x0500 False 300 (Returned None), Opened 0x1100 False 300 (Returned None),
      Opened 0x0500 False 400 Raised,
      Opened 0x0500 False 500 (Returned (Some 0)), Opened 0x1100 False 500 Raised,
      Sampled 2300000000, Emitted 300000000]"
  using variants_equivalent
    [of "scripted demo_procs demo_open demo_trim" "[2000000000, 2300000000]", THEN conjunct1]
    demo_log
  by simp

subsection \<open>The value that arrives\<close>

lemma run_delivers_the_signal:
  "\<exists>b a. samples (fst (run v H w)) = [b, a]
     \<and> emissions (fst (run v H w)) = [Signal_int (max 0 (a - b))]"
  unfolding run_variant by (rule run_V3_samples_emissions)

text \<open>
  Claim C1 says that the value reported is \<open>max 0 (a - b)\<close> for the samples \<open>b\<close> and \<open>a\<close>, and
  never negative. Both variants compute this number and send it through \<^verbatim>\<open>Signal(int)\<close>.
  With the samples 2,000,000,000 and 5,000,000,000 the number is 3,000,000,000 and what
  arrives is -1,294,967,296.
\<close>

theorem large_difference_arrives_wrapped:
  "samples (fst (run V3 (scripted demo_procs demo_open demo_trim) [2000000000, 5000000000]))
     = [2000000000, 5000000000]
   \<and> emissions (fst (run V3 (scripted demo_procs demo_open demo_trim) [2000000000, 5000000000]))
     = [- 1294967296]
   \<and> samples (fst (run V1 (scripted demo_procs demo_open demo_trim) [2000000000, 5000000000]))
     = [2000000000, 5000000000]
   \<and> emissions (fst (run V1 (scripted demo_procs demo_open demo_trim) [2000000000, 5000000000]))
     = [- 1294967296]
   \<and> max 0 (5000000000 - 2000000000) = (3000000000 :: int)"
  by (simp add: demo_defs)

subsection \<open>What the value emitted depends on\<close>

text \<open>
  Claim C9 says that a run over an empty process list still emits \<open>max 0 (a - b)\<close>. With no
  process listed and the samples 2,000,000,000 and 5,000,000,000, both variants make no
  request and deliver -1,294,967,296, not 3,000,000,000.
\<close>

theorem empty_list_run_arrives_wrapped:
  "fst (run V3 (scripted [] refuse_all demo_trim) [2000000000, 5000000000]) =
     [Sampled 2000000000, Collected, Current (Some (- 1)), Trimmed (Some (- 1)) (Returned 0),
      Enumerated [], Sampled 5000000000, Emitted (- 1294967296)]
   \<and> fst (run V1 (scripted [] refuse_all demo_trim) [2000000000, 5000000000]) =
     [Sampled 2000000000, Collected, Current (Some (- 1)), Trimmed (Some (- 1)) (Returned 0),
      Enumerated [], Sampled 5000000000, Emitted (- 1294967296)]
   \<and> Signal_int (max 0 (5000000000 - 2000000000)) \<noteq> max 0 (5000000000 - 2000000000)"
  by (simp add: demo_defs)

subsection \<open>A run delivers one value\<close>

lemma run_V3_trims: "\<exists>cur. trims (fst (run_V3 H w)) = cur # acquisitions (fst (run_V3 H w))"
proof -
  obtain b cur r ps w4 a where
    "fst (run_V3 H w) = [Sampled b, Collected, Current cur, Trimmed cur r, Enumerated ps]
       @ fst (loop_V3 H ps w4) @ [Sampled a, Emitted (Signal_int (max 0 (a - b)))]"
    using run_V3_shape [of H w] by (elim exE)
  then have "trims (fst (run_V3 H w)) = cur # acquisitions (fst (run_V3 H w))"
    by (simp add: trims_append acquisitions_append loop_V3_trims)
  then show ?thesis by blast
qed

text \<open>
  Claim C6 says that a run in which every acquisition is refused yields 0, and that a
  failure of the garbage collection does not abort the run. Neither holds: with every
  request answered by no handle and the samples 2,000,000,000 and 2,300,000,000, the run
  emits 300,000,000; and a run whose garbage collection raises ends after the first sample
  and emits nothing.
\<close>

theorem refused_run_emits_the_difference:
  "fst (run V3 (scripted demo_procs refuse_all demo_trim) [2000000000, 2300000000]) =
     [Sampled 2000000000, Collected, Current (Some (- 1)), Trimmed (Some (- 1)) (Returned 0),
      Enumerated demo_procs,
      Opened 0x0500 False 100 (Returned None), Opened 0x1100 False 100 (Returned None),
      Opened 0x0500 False 200 (Returned None), Opened 0x1100 False 200 (Returned None),
      Opened 0x0500 False 300 (Returned None), Opened 0x1100 False 300 (Returned None),
      Opened 0x0500 False 400 (Returned None), Opened 0x1100 False 400 (Returned None),
      Opened 0x0500 False 500 (Returned None), Opened 0x1100 False 500 (Returned None),
      Sampled 2300000000, Emitted 300000000]
   \<and> acquisitions (fst (run V3 (scripted demo_procs refuse_all demo_trim)
        [2000000000, 2300000000])) = []
   \<and> emissions (fst (run V3 (scripted demo_procs refuse_all demo_trim)
        [2000000000, 2300000000])) \<noteq> [0]
   \<and> fst (run_gc V3 Raised (scripted demo_procs demo_open demo_trim) [2000000000, 2300000000])
        = [Sampled 2000000000]
   \<and> emissions (fst (run_gc V3 Raised (scripted demo_procs demo_open demo_trim)
        [2000000000, 2300000000])) = []"
  by (simp add: demo_defs)

text \<open>
  Claim C6, amended. In both variants and for every host, a run whose garbage collection
  returns goes to its end whatever \<^verbatim>\<open>OpenProcess\<close> and \<^verbatim>\<open>EmptyWorkingSet\<close> answer (a handle, no
  handle, a true or false result, an exception), for the engine's own process and for the
  others. Its log is the first sample, the calls in between, made of the host in order, the
  second sample, taken in the world these calls leave, and one emission, the only one and
  the last event; the value is \<open>max 0 (a - b)\<close> when that is below \<open>2^31\<close>. A run in which
  no request gives a handle trims only once, closes nothing, and delivers its value all
  the same.
\<close>

theorem run_delivers_once:
  "\<exists>b w1 mid w5 a w6 f.
      fst (run_gc v (Returned u) H w) = Sampled b # mid @ [Sampled a, Emitted f]
    \<and> virtual_memory_available H w = (b, w1)
    \<and> replay H w1 mid = Some w5
    \<and> virtual_memory_available H w5 = (a, w6)
    \<and> snd (run_gc v (Returned u) H w) = w6
    \<and> emissions (fst (run_gc v (Returned u) H w)) = [f]
    \<and> last (fst (run_gc v (Returned u) H w)) = Emitted f
    \<and> (max 0 (a - b) < 2147483648 \<longrightarrow> f = max 0 (a - b))
    \<and> (acquisitions (fst (run_gc v (Returned u) H w)) = [] \<longrightarrow>
          closes (fst (run_gc v (Returned u) H w)) = []
          \<and> (\<exists>cur. trims (fst (run_gc v (Returned u) H w)) = [cur]))"
proof -
  obtain b w1 cur w2 r w3 ps w4 evs w5 a w6 where
    s1: "virtual_memory_available H w = (b, w1)"
    and c: "GetCurrentProcess H (gc_collect H w1) = (cur, w2)"
    and t: "EmptyWorkingSet H cur w2 = (r, w3)"
    and e: "process_iter H w3 = (ps, w4)"
    and l: "loop_V3 H ps w4 = (evs, w5)"
    and s2: "virtual_memory_available H w5 = (a, w6)"
    and run: "run_V3 H w =
        ([Sampled b, Collected, Current cur, Trimmed cur r, Enumerated ps]
           @ evs @ [Sampled a, Emitted (Signal_int (max 0 (a - b)))], w6)"
    using run_V3_anatomy [of H w] by (elim exE conjE)
  let ?mid = "[Collected, Current cur, Trimmed cur r, Enumerated ps] @ evs"
  let ?f = "Signal_int (max 0 (a - b))"
  have quiet: "emissions evs = []" using loop_V3_quiet [of H ps w4] l by simp
  have "fst (run_V3 H w) = Sampled b # ?mid @ [Sampled a, Emitted ?f]" using run by simp
  moreover have "replay H w1 ?mid = Some w5" by (rule replay_prologue [OF c t e l])
  moreover have "snd (run_V3 H w) = w6" using run by simp
  moreover have "emissions (fst (run_V3 H w)) = [?f]"
    using run quiet by (simp add: emissions_append)
  moreover have "last (fst (run_V3 H w)) = Emitted ?f" using run by simp
  moreover have "max 0 (a - b) < 2147483648 \<longrightarrow> ?f = max 0 (a - b)"
    by (simp add: Signal_int_small)
  moreover have "acquisitions (fst (run_V3 H w)) = [] \<longrightarrow>
      closes (fst (run_V3 H w)) = [] \<and> (\<exists>cur. trims (fst (run_V3 H w)) = [cur])"
    using run_V3_closes [of H w] run_V3_trims [of H w] by auto
  ultimately show ?thesis using s1 s2 by (simp add: run_variant)
qed

theorem run_delivers_once_witness:
  "acquisitions (fst (run_gc V3 (Returned ()) (metered demo_procs refuse_all) 2000000000)) = []
   \<and> closes (fst (run_gc V3 (Returned ()) (metered demo_procs refuse_all) 2000000000)) = []
   \<and> trims (fst (run_gc V3 (Returned ()) (metered demo_procs refuse_all) 2000000000))
       = [Some (- 1)]
   \<and> emissions (fst (run_gc V3 (Returned ()) (metered demo_procs refuse_all) 2000000000))
       = [1001]
   \<and> snd (run_gc V3 (Returned ()) (metered demo_procs refuse_all) 2000000000) = 2000001001"
proof -
  let ?R = "run_gc V3 (Returned ()) (metered demo_procs refuse_all) 2000000000"
  have none: "acquisitions (fst ?R) = []" by (simp add: demo_defs)
  have t: "trims (fst ?R) = [Some (- 1)]" by (simp add: demo_defs)
  have l: "last (fst ?R) = Emitted 1001" by (simp add: demo_defs)
  have w: "snd ?R = 2000001001" by (simp add: demo_defs)
  from run_delivers_once [of V3 "()" "metered demo_procs refuse_all" 2000000000]
  obtain f where "emissions (fst ?R) = [f]" "last (fst ?R) = Emitted f"
    and refused: "acquisitions (fst ?R) = [] \<longrightarrow>
          closes (fst ?R) = [] \<and> (\<exists>cur. trims (fst ?R) = [cur])"
    by (elim exE conjE)
  with l have "emissions (fst ?R) = [1001]" by simp
  moreover from refused none have "closes (fst ?R) = []" by simp
  ultimately show ?thesis using none t w by (intro conjI)
qed

end
